theory Spec2Isabelle
  imports Main
begin

section \<open>The event manager: data model\<close>

text \<open>
  The registry of \<^verbatim>\<open>event_manager.h\<close> (the version with \<^verbatim>\<open>on\<close>, \<^verbatim>\<open>off\<close> and
  \<^verbatim>\<open>emitEvent\<close>). A callback is a \<^verbatim>\<open>std::function<void(Args...)>\<close>: it receives
  the emitted arguments \<open>'a\<close> (the whole argument pack as one value), acts on everything
  outside the registry (the world \<open>'w\<close>) and either returns or throws an exception \<open>'e\<close>.
  A throw does not undo what the callback did before it, so a callback returns the world
  it leaves behind together with the exception, if any.

  The type parameter pack \<^verbatim>\<open>Args...\<close> of one event name is the type \<open>'a\<close>; names
  with different signatures are covered by a sum type for \<open>'a\<close>. The unchecked
  \<^verbatim>\<open>static_cast\<close> is the identity on a container of the signature that the callers
  agree on; a call with another signature is undefined behaviour in C++ and has no model.

  A callback that is running holds no way back into the registry: the three methods take
  the non-recursive mutex, so a callback that called one of them on the same thread would
  never return. The world \<open>'w\<close> therefore does not contain the registry, and a callback
  is a total function: it returns or it throws.

  An identifier is a \<^verbatim>\<open>size_t\<close>. The only identifiers the code computes are values of
  \<^verbatim>\<open>functions.size()\<close>, which never wraps, so identifiers are natural numbers.
\<close>

type_synonym ('a, 'w, 'e) FunctionType = "'a \<Rightarrow> 'w \<Rightarrow> 'w \<times> 'e option"

type_synonym ('a, 'w, 'e) FunctionIdPair = "nat \<times> ('a, 'w, 'e) FunctionType"

type_synonym ('a, 'w, 'e) FunctionVector = "('a, 'w, 'e) FunctionIdPair list"

text \<open>
  The class has one data member besides the mutex: the map from event names to the
  (shared pointers to the) function vectors. Every vector has exactly one owner, the map
  entry, so the map holds the vectors themselves.
\<close>

record ('a, 'w, 'e) EventManager =
  functionsMap :: "string \<rightharpoonup> ('a, 'w, 'e) FunctionVector"

text \<open>The defaulted constructor: an empty map.\<close>

definition EventManager_init :: "('a, 'w, 'e) EventManager" where
  "EventManager_init = \<lparr>functionsMap = Map.empty\<rparr>"

text \<open>
  What one emission does, as its caller sees it: the world the callbacks leave, the
  exception that left \<^verbatim>\<open>emitEvent\<close> (if any), and the calls
  \<^verbatim>\<open>funcPair.second(args...)\<close> that the loop made, in the order it made them.
\<close>

record ('a, 'w, 'e) emission =
  world :: 'w
  raised :: "'e option"
  calls :: "(('a, 'w, 'e) FunctionIdPair \<times> 'a) list"

section \<open>The operations\<close>

text \<open>
  \<^verbatim>\<open>on\<close>: the identifier is the size of the name's vector before the insertion, or 0
  for a name without a vector; the pair is appended (\<^verbatim>\<open>emplace_back\<close>), or a new
  one-element vector is inserted into the map. The result is the returned identifier and
  the manager after the call.
\<close>

definition on ::
  "('a, 'w, 'e) EventManager \<Rightarrow> string \<Rightarrow> ('a, 'w, 'e) FunctionType
     \<Rightarrow> nat \<times> ('a, 'w, 'e) EventManager" where
  "on em eventName func =
     (case functionsMap em eventName of
        Some functions \<Rightarrow>
          (let ident = length functions
           in (ident,
               em\<lparr>functionsMap := (functionsMap em)(eventName \<mapsto> functions @ [(ident, func)])\<rparr>))
      | None \<Rightarrow>
          (0, em\<lparr>functionsMap := (functionsMap em)(eventName \<mapsto> [(0, func)])\<rparr>))"

text \<open>
  \<^verbatim>\<open>std::remove_if\<close> followed by \<^verbatim>\<open>erase\<close>: every element that satisfies the
  predicate goes, the others keep their relative order.
\<close>

fun remove_if :: "('x \<Rightarrow> bool) \<Rightarrow> 'x list \<Rightarrow> 'x list" where
  "remove_if pred [] = []"
| "remove_if pred (x # xs) = (if pred x then remove_if pred xs else x # remove_if pred xs)"

text \<open>
  \<^verbatim>\<open>off\<close>: for a name with a vector, the vector loses the pairs whose first component
  is the identifier; a name without a vector changes nothing. The map entry stays.
\<close>

definition off ::
  "('a, 'w, 'e) EventManager \<Rightarrow> string \<Rightarrow> nat \<Rightarrow> ('a, 'w, 'e) EventManager" where
  "off em eventName ident =
     (case functionsMap em eventName of
        Some functions \<Rightarrow>
          em\<lparr>functionsMap :=
               (functionsMap em)(eventName \<mapsto> remove_if (\<lambda>pair. fst pair = ident) functions)\<rparr>
      | None \<Rightarrow> em)"

text \<open>
  The loop of \<^verbatim>\<open>emitEvent\<close> over the vector. There is no \<^verbatim>\<open>try\<close> in the class:
  an exception thrown by a callback ends the loop and leaves the function.
\<close>

fun call_all ::
  "('a, 'w, 'e) FunctionVector \<Rightarrow> 'a \<Rightarrow> 'w \<Rightarrow> ('a, 'w, 'e) emission" where
  "call_all [] args w = \<lparr>world = w, raised = None, calls = []\<rparr>"
| "call_all (funcPair # rest) args w =
     (case snd funcPair args w of
        (w', Some e) \<Rightarrow> \<lparr>world = w', raised = Some e, calls = [(funcPair, args)]\<rparr>
      | (w', None) \<Rightarrow>
          (let r = call_all rest args w' in r\<lparr>calls := (funcPair, args) # calls r\<rparr>))"

text \<open>
  \<^verbatim>\<open>emitEvent\<close>: the vector of the name is looked up and every stored function is
  called with the arguments; for a name without a vector nothing happens. The manager is
  returned as the function leaves it.
\<close>

definition emitEvent ::
  "('a, 'w, 'e) EventManager \<Rightarrow> string \<Rightarrow> 'a \<Rightarrow> 'w
     \<Rightarrow> ('a, 'w, 'e) EventManager \<times> ('a, 'w, 'e) emission" where
  "emitEvent em eventName args w =
     (case functionsMap em eventName of
        Some functions \<Rightarrow> (em, call_all functions args w)
      | None \<Rightarrow> (em, \<lparr>world = w, raised = None, calls = []\<rparr>))"

section \<open>Scenarios\<close>

text \<open>
  A sequence of \<open>on\<close> calls under one event name, the returned identifiers dropped.
\<close>

fun register_all ::
  "('a, 'w, 'e) EventManager \<Rightarrow> string \<Rightarrow> ('a, 'w, 'e) FunctionType list
     \<Rightarrow> ('a, 'w, 'e) EventManager" where
  "register_all em name [] = em"
| "register_all em name (func # funcs) = register_all (snd (on em name func)) name funcs"

text \<open>
  No callback of a list raises during one emission: run one after the other on the
  emitted arguments, each on the world that its predecessor left, every one of them
  returns. The condition is on the callbacks and the world the emission starts in.
\<close>

fun none_raises :: "('a, 'w, 'e) FunctionType list \<Rightarrow> 'a \<Rightarrow> 'w \<Rightarrow> bool" where
  "none_raises [] args w = True"
| "none_raises (func # funcs) args w =
     (case func args w of
        (w', None) \<Rightarrow> none_raises funcs args w'
      | (w', Some e) \<Rightarrow> False)"

text \<open>
  Callbacks that append a mark and the arguments they received to a shared log, the world
  of the scenarios below; the second one throws its mark after writing to the log.
\<close>

definition record_call :: "string \<Rightarrow> ('a, (string \<times> 'a) list, string) FunctionType" where
  "record_call mark args log = (log @ [(mark, args)], None)"

definition failing_call :: "string \<Rightarrow> ('a, (string \<times> 'a) list, string) FunctionType" where
  "failing_call mark args log = (log @ [(mark, args)], Some mark)"

type_synonym int_manager = "(int, (string \<times> int) list, string) EventManager"

text \<open>\<^verbatim>\<open>on("e", f); on("e", g); off("e", 0); on("e", h)\<close>, state by state.\<close>

definition registered_f :: int_manager where
  "registered_f = snd (on EventManager_init ''e'' (record_call ''f''))"

definition registered_fg :: int_manager where
  "registered_fg = snd (on registered_f ''e'' (record_call ''g''))"

definition removed_f :: int_manager where
  "removed_f = off registered_fg ''e'' 0"

definition reused_id_state :: int_manager where
  "reused_id_state = snd (on removed_f ''e'' (record_call ''h''))"

text \<open>Three callbacks under one name, the first of which throws.\<close>

definition first_fails :: int_manager where
  "first_fails =
     register_all EventManager_init ''n''
       [failing_call ''f'', record_call ''g'', record_call ''h'']"


text \<open>Four callbacks under one name, the second of which throws.\<close>

definition four_registered :: int_manager where
  "four_registered =
     register_all EventManager_init ''n''
       [record_call ''f'', failing_call ''g'', record_call ''h'', record_call ''k'']"

text \<open>
  Two names with different signatures: \<^verbatim>\<open>"a"\<close> takes an \<^verbatim>\<open>int\<close>, \<^verbatim>\<open>"b"\<close> a
  string and an \<^verbatim>\<open>int\<close>.
\<close>

type_synonym two_signatures = "int + string \<times> int"

type_synonym mixed_manager =
  "(two_signatures, (string \<times> two_signatures) list, string) EventManager"

definition registered_a :: mixed_manager where
  "registered_a = snd (on EventManager_init ''a'' (record_call ''fa''))"

definition registered_ab :: mixed_manager where
  "registered_ab = snd (on registered_a ''b'' (record_call ''fb''))"

section \<open>Facts about the loops\<close>

lemma remove_if_filter: "remove_if pred xs = filter (\<lambda>x. \<not> pred x) xs"
  by (induction xs) simp_all

lemma remove_if_absent:
  "ident \<notin> fst ` set fs \<Longrightarrow> remove_if (\<lambda>pair. fst pair = ident) fs = fs"
  by (induction fs) auto



text \<open>Whatever happens, the loop calls stored pairs only, with the emitted arguments.\<close>

lemma calls_subset:
  "set (calls (call_all fs args w)) \<subseteq> (\<lambda>p. (p, args)) ` set fs"
proof (induction fs arbitrary: w)
  case Nil
  then show ?case by simp
next
  case (Cons p fs)
  show ?case
  proof (cases "snd p args w")
    case (Pair w' r)
    then show ?thesis using Cons.IH [of w']
      by (cases r) (auto simp: Let_def)
  qed
qed

text \<open>Callbacks that raise in no world do not raise during an emission.\<close>

lemma never_raising_none_raises:
  "(\<forall>func \<in> set funcs. \<forall>v. snd (func args v) = None) \<Longrightarrow> none_raises funcs args w"
proof (induction funcs arbitrary: w)
  case Nil
  then show ?case by simp
next
  case (Cons f funcs)
  have ret: "snd (f args v) = None" for v
    using Cons.prems by simp
  have rest: "none_raises funcs args v" for v
    using Cons by simp
  show ?case
    using ret rest by (simp split: prod.splits option.splits) (metis snd_conv option.distinct(1))
qed

text \<open>
  When no callback raises, the loop calls the whole vector, front to back, raises
  nothing and leaves the world that the callbacks produce one after the other.
\<close>

lemma call_all_none_raises:
  "none_raises (map snd fs) args w \<Longrightarrow>
   call_all fs args w =
     \<lparr>world = foldl (\<lambda>v func. fst (func args v)) w (map snd fs), raised = None,
      calls = map (\<lambda>p. (p, args)) fs\<rparr>"
proof (induction fs arbitrary: w)
  case Nil
  then show ?case by simp
next
  case (Cons p fs)
  then show ?case
    by (cases "snd p args w") (auto simp: Let_def split: option.splits)
qed

section \<open>Facts about the scenarios\<close>

lemma register_all_Some:
  "functionsMap em name = Some xs \<Longrightarrow>
   functionsMap (register_all em name funcs) name = Some (xs @ enumerate (length xs) funcs)"
proof (induction funcs arbitrary: em xs)
  case Nil
  then show ?case by simp
next
  case (Cons f funcs)
  have "functionsMap (snd (on em name f)) name = Some (xs @ [(length xs, f)])"
    using Cons.prems by (simp add: on_def Let_def)
  from Cons.IH [OF this] show ?case by simp
qed

lemma register_all_None:
  assumes "functionsMap em name = None" and "funcs \<noteq> []"
  shows "functionsMap (register_all em name funcs) name = Some (enumerate 0 funcs)"
proof (cases funcs)
  case Nil
  with assms(2) show ?thesis by simp
next
  case (Cons f rest)
  have "functionsMap (snd (on em name f)) name = Some [(0, f)]"
    using assms(1) by (simp add: on_def)
  from register_all_Some [OF this, of rest] show ?thesis using Cons by simp
qed

lemma registered_f_map: "functionsMap registered_f = [''e'' \<mapsto> [(0, record_call ''f'')]]"
  by (simp add: registered_f_def on_def EventManager_init_def)

lemma registered_fg_map:
  "functionsMap registered_fg = [''e'' \<mapsto> [(0, record_call ''f''), (1, record_call ''g'')]]"
  by (simp add: registered_fg_def on_def registered_f_map Let_def)

lemma removed_f_map: "functionsMap removed_f = [''e'' \<mapsto> [(1, record_call ''g'')]]"
  by (simp add: removed_f_def off_def registered_fg_map)

lemma reused_id_state_map:
  "functionsMap reused_id_state = [''e'' \<mapsto> [(1, record_call ''g''), (1, record_call ''h'')]]"
  by (simp add: reused_id_state_def on_def removed_f_map Let_def)

lemma first_fails_map:
  "functionsMap first_fails
     = [''n'' \<mapsto> [(0, failing_call ''f''), (1, record_call ''g''), (2, record_call ''h'')]]"
  by (simp add: first_fails_def on_def EventManager_init_def Let_def numeral_2_eq_2)


lemma four_registered_map:
  "functionsMap four_registered
     = [''n'' \<mapsto> [(0, record_call ''f''), (1, failing_call ''g''), (2, record_call ''h''),
                  (3, record_call ''k'')]]"
  by (simp add: four_registered_def on_def EventManager_init_def Let_def numeral_2_eq_2
        numeral_3_eq_3)

lemma registered_a_map: "functionsMap registered_a = [''a'' \<mapsto> [(0, record_call ''fa'')]]"
  by (simp add: registered_a_def on_def EventManager_init_def)

lemma registered_ab_map:
  "functionsMap registered_ab
     = [''a'' \<mapsto> [(0, record_call ''fa'')], ''b'' \<mapsto> [(0, record_call ''fb'')]]"
  by (simp add: registered_ab_def on_def registered_a_map)

section \<open>Registration\<close>

text \<open>
  C4. A call of \<open>on\<close> for a name that has a container returns the number of entries the
  container had before the call and appends the new entry with that identifier; for a
  name without a container it returns 0 and creates a container that holds the single
  new entry.
\<close>

theorem on_returns_length:
  "(\<forall>functions. functionsMap em name = Some functions \<longrightarrow>
      fst (on em name func) = length functions \<and>
      functionsMap (snd (on em name func)) name
        = Some (functions @ [(length functions, func)])) \<and>
   (functionsMap em name = None \<longrightarrow>
      fst (on em name func) = 0 \<and>
      functionsMap (snd (on em name func)) name = Some [(0, func)])"
  by (simp add: on_def Let_def)

theorem on_returns_length_witness:
  "functionsMap (EventManager_init :: int_manager) ''e'' = None \<and>
   fst (on (EventManager_init :: int_manager) ''e'' (record_call ''f'')) = 0 \<and>
   functionsMap registered_f ''e'' = Some [(0, record_call ''f'')] \<and>
   fst (on registered_f ''e'' (record_call ''g'')) = 1 \<and>
   functionsMap registered_fg ''e'' = Some [(0, record_call ''f''), (1, record_call ''g'')]"
  using on_returns_length [of "EventManager_init :: int_manager" "''e''" "record_call ''f''"]
        on_returns_length [of registered_f "''e''" "record_call ''g''"]
  by (simp add: registered_f_def [symmetric] registered_fg_def [symmetric] registered_f_map
        EventManager_init_def)

text \<open>
  C2. The identifier that \<open>on\<close> returns is the size of the vector, and \<open>off\<close> shrinks the
  vector: after \<^verbatim>\<open>on("e", f)\<close>, \<^verbatim>\<open>on("e", g)\<close>, \<^verbatim>\<open>off("e", 0)\<close> the call
  \<^verbatim>\<open>on("e", h)\<close> returns 1, the identifier that \<open>g\<close> already carries, and the container
  of the name holds two entries with the identifier 1. A later \<^verbatim>\<open>off("e", 1)\<close> removes
  both of them, so the identifier does not tell the two callbacks apart.
\<close>

theorem identifiers_collide:
  "fst (on registered_f ''e'' (record_call ''g'')) = 1 \<and>
   fst (on removed_f ''e'' (record_call ''h'')) = 1 \<and>
   functionsMap reused_id_state ''e'' = Some [(1, record_call ''g''), (1, record_call ''h'')] \<and>
   \<not> distinct (map fst [(1 :: nat, record_call ''g'' :: (int, (string \<times> int) list, string) FunctionType),
                         (1, record_call ''h'')]) \<and>
   functionsMap (off reused_id_state ''e'' 1) ''e'' = Some []"
  by (simp add: reused_id_state_map on_def off_def registered_f_map removed_f_map Let_def)

section \<open>Removal\<close>

text \<open>
  C5. \<open>off\<close> for a name without a container, or with an identifier that no entry of the
  name's container carries, returns the manager it was given: the map and every
  container are as before. \<open>off\<close> has no error result, as the method has no failing path.
\<close>

theorem off_unknown_noop:
  "(functionsMap em name = None \<longrightarrow> off em name ident = em) \<and>
   (\<forall>functions. functionsMap em name = Some functions \<and> ident \<notin> fst ` set functions
        \<longrightarrow> off em name ident = em)"
  by (auto simp: off_def remove_if_absent map_upd_triv)

theorem off_unknown_noop_witness:
  "functionsMap reused_id_state ''x'' = None \<and>
   off reused_id_state ''x'' 1 = reused_id_state \<and>
   functionsMap reused_id_state ''e'' = Some [(1, record_call ''g''), (1, record_call ''h'')] \<and>
   0 \<notin> fst ` set [(1 :: nat, record_call ''g'' :: (int, (string \<times> int) list, string) FunctionType),
                   (1, record_call ''h'')] \<and>
   off reused_id_state ''e'' 0 = reused_id_state"
  using off_unknown_noop [of reused_id_state "''x''" 1]
        off_unknown_noop [of reused_id_state "''e''" 0]
  by (simp add: reused_id_state_map)

text \<open>
  C10. \<open>off\<close> on a name with a container leaves exactly the entries whose identifier
  differs from the given one, in their order: every entry that carries the identifier is
  removed, however many there are. The name keeps its map entry, also when the container
  is left empty: the set of names in the map does not change.
\<close>

theorem off_removes_all_matches:
  "functionsMap em name = Some functions \<Longrightarrow>
   functionsMap (off em name ident) name
     = Some (filter (\<lambda>pair. fst pair \<noteq> ident) functions) \<and>
   ident \<notin> fst ` set (filter (\<lambda>pair. fst pair \<noteq> ident) functions) \<and>
   dom (functionsMap (off em name ident)) = dom (functionsMap em)"
  by (auto simp: off_def remove_if_filter)

theorem off_removes_all_matches_witness:
  "functionsMap reused_id_state ''e'' = Some [(1, record_call ''g''), (1, record_call ''h'')] \<and>
   functionsMap (off reused_id_state ''e'' 1) ''e'' = Some [] \<and>
   dom (functionsMap (off reused_id_state ''e'' 1)) = {''e''}"
proof -
  have st: "functionsMap reused_id_state ''e''
      = Some [(1, record_call ''g''), (1, record_call ''h'')]"
    by (simp add: reused_id_state_map)
  from off_removes_all_matches [OF st, of 1] st show ?thesis
    by (simp add: reused_id_state_map)
qed

section \<open>Emission\<close>

text \<open>
  C6. \<open>emitEvent\<close> on a name without a container calls nothing, raises nothing and leaves
  the world and the manager as they were.
\<close>

theorem emit_unknown_name:
  "functionsMap em name = None \<Longrightarrow>
   emitEvent em name args w = (em, \<lparr>world = w, raised = None, calls = []\<rparr>)"
  by (simp add: emitEvent_def)

theorem emit_unknown_name_witness:
  "functionsMap reused_id_state ''x'' = None \<and>
   emitEvent reused_id_state ''x'' 5 []
     = (reused_id_state, \<lparr>world = [], raised = None, calls = []\<rparr>)"
proof -
  have none: "functionsMap reused_id_state ''x'' = None"
    by (simp add: reused_id_state_map)
  from none emit_unknown_name [OF none, of 5 "[]"] show ?thesis by simp
qed

text \<open>
  C1, as the code has it. After a sequence of \<open>on\<close> calls under a name that had no
  container, an emission for that name in which no callback raises calls every
  registered callback exactly once, in the order of the registrations (the \<open>i\<close>-th
  registered callback carries the identifier \<open>i\<close>), each with the emitted arguments;
  it raises nothing, leaves the world that the callbacks produce in that order, and
  leaves the manager unchanged.
\<close>

theorem emit_after_registrations:
  assumes "functionsMap em name = None"
    and "none_raises funcs args w"
  shows "emitEvent (register_all em name funcs) name args w =
           (register_all em name funcs,
            \<lparr>world = foldl (\<lambda>v func. fst (func args v)) w funcs, raised = None,
             calls = map (\<lambda>p. (p, args)) (enumerate 0 funcs)\<rparr>)"
proof (cases funcs)
  case Nil
  then show ?thesis using assms(1) by (simp add: emitEvent_def)
next
  case (Cons f rest)
  then have "functionsMap (register_all em name funcs) name = Some (enumerate 0 funcs)"
    using register_all_None [OF assms(1), of funcs] by simp
  moreover have "none_raises (map snd (enumerate 0 funcs)) args w"
    using assms(2) by simp
  ultimately show ?thesis
    by (simp add: emitEvent_def call_all_none_raises)
qed

theorem emit_after_registrations_witness:
  "functionsMap (EventManager_init :: int_manager) ''e'' = None \<and>
   none_raises [record_call ''f'', record_call ''g'', record_call ''h''] (5 :: int) [] \<and>
   raised (snd (emitEvent
     (register_all EventManager_init ''e'' [record_call ''f'', record_call ''g'', record_call ''h''])
     ''e'' (5 :: int) [])) = None \<and>
   calls (snd (emitEvent
     (register_all EventManager_init ''e'' [record_call ''f'', record_call ''g'', record_call ''h''])
     ''e'' (5 :: int) []))
     = [((0, record_call ''f''), 5), ((1, record_call ''g''), 5), ((2, record_call ''h''), 5)] \<and>
   world (snd (emitEvent
     (register_all EventManager_init ''e'' [record_call ''f'', record_call ''g'', record_call ''h''])
     ''e'' (5 :: int) []))
     = [(''f'', 5), (''g'', 5), (''h'', 5)]"
proof -
  have none: "functionsMap (EventManager_init :: int_manager) ''e'' = None"
    by (simp add: EventManager_init_def)
  have ret: "none_raises [record_call ''f'', record_call ''g'', record_call ''h''] (5 :: int) []"
    by (simp add: record_call_def)
  have log: "foldl (\<lambda>v func. fst (func (5 :: int) v)) []
      [record_call ''f'', record_call ''g'', record_call ''h'']
      = [(''f'', 5), (''g'', 5), (''h'', 5)]"
    by (simp add: record_call_def)
  have ids: "enumerate 0 [record_call ''f'', record_call ''g'', record_call ''h'']
      = [(0, record_call ''f'' :: (int, (string \<times> int) list, string) FunctionType),
         (1, record_call ''g''), (2, record_call ''h'')]"
    by (simp add: numeral_2_eq_2)
  from emit_after_registrations [OF none ret] none ret show ?thesis
    unfolding log ids by simp
qed

text \<open>
  Without the condition the property fails: the first of three registered callbacks
  throws, and the emission has called that one only.
\<close>

theorem emit_after_registrations_counterexample:
  "first_fails
     = register_all EventManager_init ''n''
         [failing_call ''f'', record_call ''g'', record_call ''h''] \<and>
   functionsMap first_fails ''n''
     = Some [(0, failing_call ''f''), (1, record_call ''g''), (2, record_call ''h'')] \<and>
   calls (snd (emitEvent first_fails ''n'' 5 [])) = [((0, failing_call ''f''), 5)] \<and>
   map fst (calls (snd (emitEvent first_fails ''n'' 5 [])))
     \<noteq> enumerate 0 [failing_call ''f'', record_call ''g'', record_call ''h'']"
  by (simp add: first_fails_map emitEvent_def failing_call_def)
     (simp add: first_fails_def)



section \<open>Emission after a removal\<close>

text \<open>
  C3, as the code has it. When exactly one entry of the name's container carries the
  identifier, \<open>off\<close> removes that entry and keeps the others in their order; a later
  emission for the name never calls an entry with that identifier, and when none of the
  remaining callbacks raises it raises nothing and calls every remaining entry once, in
  the original order.
\<close>

theorem emit_after_off:
  assumes "functionsMap em name = Some (pre @ (ident, func) # post)"
    and "ident \<notin> fst ` set pre" and "ident \<notin> fst ` set post"
  shows "functionsMap (off em name ident) name = Some (pre @ post) \<and>
         (\<forall>c \<in> set (calls (snd (emitEvent (off em name ident) name args w))).
            fst (fst c) \<noteq> ident) \<and>
         (none_raises (map snd (pre @ post)) args w \<longrightarrow>
            raised (snd (emitEvent (off em name ident) name args w)) = None \<and>
            calls (snd (emitEvent (off em name ident) name args w))
              = map (\<lambda>p. (p, args)) (pre @ post))"
proof -
  have "filter (\<lambda>pair. fst pair \<noteq> ident) pre = pre"
    and "filter (\<lambda>pair. fst pair \<noteq> ident) post = post"
    using assms(2,3) by (auto simp: filter_id_conv)
  then have "remove_if (\<lambda>pair. fst pair = ident) (pre @ (ident, func) # post) = pre @ post"
    by (simp add: remove_if_filter)
  then have st: "functionsMap (off em name ident) name = Some (pre @ post)"
    using assms(1) by (simp add: off_def)
  have "fst (fst c) \<noteq> ident" if "c \<in> set (calls (call_all (pre @ post) args w))" for c
  proof -
    from that calls_subset [of "pre @ post" args w]
    have "fst c \<in> set (pre @ post)" by auto
    then show ?thesis using assms(2,3) by (auto simp: image_iff)
  qed
  moreover have "raised (call_all (pre @ post) args w) = None \<and>
      calls (call_all (pre @ post) args w) = map (\<lambda>p. (p, args)) (pre @ post)"
    if "none_raises (map snd (pre @ post)) args w"
    using call_all_none_raises [OF that] by simp
  ultimately show ?thesis using st
    by (simp add: emitEvent_def)
qed

theorem emit_after_off_witness:
  "functionsMap four_registered ''n''
     = Some ([(0, record_call ''f'')] @ (1, failing_call ''g'')
               # [(2, record_call ''h''), (3, record_call ''k'')]) \<and>
   none_raises [record_call ''f'', record_call ''h'', record_call ''k''] (5 :: int) [] \<and>
   functionsMap (off four_registered ''n'' 1) ''n''
     = Some [(0, record_call ''f''), (2, record_call ''h''), (3, record_call ''k'')] \<and>
   raised (snd (emitEvent (off four_registered ''n'' 1) ''n'' 5 [])) = None \<and>
   calls (snd (emitEvent (off four_registered ''n'' 1) ''n'' 5 []))
     = [((0, record_call ''f''), 5), ((2, record_call ''h''), 5), ((3, record_call ''k''), 5)]"
proof -
  let ?f = "record_call ''f'' :: (int, (string \<times> int) list, string) FunctionType"
  let ?h = "record_call ''h'' :: (int, (string \<times> int) list, string) FunctionType"
  let ?k = "record_call ''k'' :: (int, (string \<times> int) list, string) FunctionType"
  have st: "functionsMap four_registered ''n''
     = Some ([(0, ?f)] @ (1, failing_call ''g'') # [(2, ?h), (3, ?k)])"
    by (simp add: four_registered_map)
  have pre: "1 \<notin> fst ` set [(0 :: nat, ?f)]" by simp
  have post: "1 \<notin> fst ` set [(2 :: nat, ?h), (3, ?k)]" by simp
  have ret: "none_raises [?f, ?h, ?k] 5 []"
    by (simp add: record_call_def)
  from emit_after_off [OF st pre post, of 5 "[]"] st ret show ?thesis
    by simp
qed

text \<open>
  Without the two conditions the property fails. After the removal of the second of
  three entries, the first callback throws and the third, which is still registered, is
  not called. And where \<open>g\<close> and \<open>h\<close> both carry the identifier 1 (the state reached by
  \<^verbatim>\<open>on("e", f); on("e", g); off("e", 0); on("e", h)\<close>), the removal of either by its
  identifier removes the other as well, and a later emission calls nothing.
\<close>

theorem emit_after_off_counterexample:
  "functionsMap first_fails ''n''
     = Some [(0, failing_call ''f''), (1, record_call ''g''), (2, record_call ''h'')] \<and>
   functionsMap (off first_fails ''n'' 1) ''n''
     = Some [(0, failing_call ''f''), (2, record_call ''h'')] \<and>
   calls (snd (emitEvent (off first_fails ''n'' 1) ''n'' 5 [])) = [((0, failing_call ''f''), 5)] \<and>
   map fst (calls (snd (emitEvent (off first_fails ''n'' 1) ''n'' 5 [])))
     \<noteq> [(0, failing_call ''f''), (2, record_call ''h'')] \<and>
   functionsMap reused_id_state ''e'' = Some [(1, record_call ''g''), (1, record_call ''h'')] \<and>
   functionsMap (off reused_id_state ''e'' 1) ''e'' = Some [] \<and>
   calls (snd (emitEvent (off reused_id_state ''e'' 1) ''e'' 5 [])) = []"
  by (simp add: first_fails_map reused_id_state_map off_def emitEvent_def failing_call_def)

section \<open>Distinct event names\<close>

text \<open>
  C8. For distinct names \<open>a\<close> and \<open>b\<close>: \<open>on\<close> and \<open>off\<close> under \<open>a\<close> leave the container
  of \<open>b\<close> as it is; an emission for \<open>a\<close> leaves the manager as it is, calls entries of
  the container of \<open>a\<close> only, each with the emitted arguments, and does the same
  whatever the map holds for \<open>b\<close>, so nothing stored under \<open>b\<close> takes part in it.
\<close>

theorem names_are_independent:
  assumes "a \<noteq> b"
  shows "functionsMap (snd (on em a func)) b = functionsMap em b \<and>
         functionsMap (off em a ident) b = functionsMap em b \<and>
         fst (emitEvent em a args w) = em \<and>
         (\<forall>c \<in> set (calls (snd (emitEvent em a args w))).
            \<exists>functions. functionsMap em a = Some functions \<and>
              fst c \<in> set functions \<and> snd c = args) \<and>
         snd (emitEvent (em\<lparr>functionsMap := (functionsMap em)(b := v)\<rparr>) a args w)
           = snd (emitEvent em a args w)"
proof -
  have "functionsMap (snd (on em a func)) b = functionsMap em b"
    using assms by (simp add: on_def Let_def split: option.splits)
  moreover have "functionsMap (off em a ident) b = functionsMap em b"
    using assms by (simp add: off_def split: option.splits)
  moreover have "fst (emitEvent em a args w) = em"
    by (simp add: emitEvent_def split: option.splits)
  moreover have "\<forall>c \<in> set (calls (snd (emitEvent em a args w))).
           \<exists>functions. functionsMap em a = Some functions \<and> fst c \<in> set functions \<and> snd c = args"
    using calls_subset by (fastforce simp: emitEvent_def split: option.splits)
  moreover have "snd (emitEvent (em\<lparr>functionsMap := (functionsMap em)(b := v)\<rparr>) a args w)
           = snd (emitEvent em a args w)"
    using assms by (simp add: emitEvent_def split: option.splits)
  ultimately show ?thesis by blast
qed

theorem names_are_independent_witness:
  "''b'' \<noteq> ''a'' \<and>
   functionsMap registered_ab ''a'' = functionsMap registered_a ''a'' \<and>
   functionsMap registered_ab ''a'' = Some [(0, record_call ''fa'')] \<and>
   functionsMap registered_ab ''b'' = Some [(0, record_call ''fb'')] \<and>
   emitEvent registered_ab ''a'' (Inl 42) []
     = (registered_ab, \<lparr>world = [(''fa'', Inl 42)], raised = None,
          calls = [((0, record_call ''fa''), Inl 42)]\<rparr>) \<and>
   emitEvent registered_ab ''b'' (Inr (''left'', 3)) []
     = (registered_ab, \<lparr>world = [(''fb'', Inr (''left'', 3))], raised = None,
          calls = [((0, record_call ''fb''), Inr (''left'', 3))]\<rparr>)"
proof -
  have ne: "''b'' \<noteq> ''a''" by simp
  from names_are_independent [OF ne, of registered_a "record_call ''fb''"]
  have "functionsMap registered_ab ''a'' = functionsMap registered_a ''a''"
    by (simp add: registered_ab_def)
  with ne show ?thesis
    by (simp add: registered_ab_map registered_a_map emitEvent_def record_call_def)
qed

end
